theory Spec2Isabelle
  imports Main "HOL-Library.Word"
begin

section \<open>The Scheduler of taskSchedular.cpp\<close>

subsection \<open>Jobs, the error callback and the Scheduler object\<close>

text \<open>
  \<^verbatim>\<open>size_t\<close> is a 64-bit unsigned integer: \<^verbatim>\<open>countJobs++\<close> and
  \<^verbatim>\<open>countJobs--\<close> wrap around.
\<close>

type_synonym size_t = "64 word"

text \<open>
  What a job can throw: an object derived from \<^verbatim>\<open>std::exception\<close>, with the text its
  \<^verbatim>\<open>what()\<close> returns (\<^verbatim>\<open>throw std::out_of_range("err")\<close>), or anything else
  (\<^verbatim>\<open>throw "err"\<close>).
\<close>

datatype exn = StdException string | NonStd

text \<open>
  \<^verbatim>\<open>using Job = void (*)();\<close> A job is known to the Scheduler only through what calling
  it does: it returns, or it throws.
\<close>

datatype Job = Returns | Throws exn

text \<open>
  \<^verbatim>\<open>using Error = void (*)(const std::exception &);\<close> A function pointer: null, or the
  address of a callback.
\<close>

datatype Error = nullptr | Callback nat

datatype runtime_error = RuntimeError string

text \<open>
  The data members of \<^verbatim>\<open>class Scheduler\<close>. The mutex is its owner, if any thread holds
  it. The threads blocked in \<^verbatim>\<open>condition\<close> are read off the thread table below.
\<close>

record Scheduler =
  maxJobsAllowed :: size_t
  error :: Error
  countJobs :: size_t
  mutex :: "nat option"

text \<open>
  \<^verbatim>\<open>Scheduler::Scheduler(size_t size, const Error error)\<close>: the members are initialised,
  then a null callback throws and no object exists.
\<close>

definition Scheduler_ctor :: "size_t \<Rightarrow> Error \<Rightarrow> runtime_error + Scheduler" where
  "Scheduler_ctor sz err =
     (if err = nullptr then Inl (RuntimeError ''non-null error callback required'')
      else Inr \<lparr>maxJobsAllowed = sz, error = err, countJobs = 0, mutex = None\<rparr>)"

subsection \<open>Threads\<close>

text \<open>
  A client thread runs a list of calls on the Scheduler. \<^verbatim>\<open>schedule(j, n)\<close> takes the job
  and the delay \<^verbatim>\<open>long n\<close> in milliseconds.
\<close>

datatype call = Schedule Job int | Wait

text \<open>
  Program points inside \<^verbatim>\<open>Scheduler::schedule\<close>, after the lock of line 44 is taken:
  the predicate of \<^verbatim>\<open>condition.wait\<close> (lines 47-48), blocked inside it with the mutex
  released, woken and taking the mutex again, the read and the write of
  \<^verbatim>\<open>countJobs++\<close> (line 49), the thread creation (lines 55-80; the number is the clock
  reading at the increment, kept for the statements about the delay), and the unlock at
  the end of the scope (line 81).
\<close>

datatype spc = S_pred | S_blocked | S_relock | S_load | S_store size_t | S_spawn nat | S_unlock

text \<open>Program points inside \<^verbatim>\<open>Scheduler::wait\<close> (lines 86-91).\<close>

datatype wpc = W_pred | W_blocked | W_relock | W_unlock

text \<open>
  Program points of the lambda a job's thread runs (lines 59-79): before
  \<^verbatim>\<open>sleep_for\<close>, inside it until the given clock reading, the try statement,
  \<^verbatim>\<open>condition.notify_one()\<close>, the read and the write of \<^verbatim>\<open>countJobs--\<close>, the end
  of the lambda, and an exception that left the lambda (\<^verbatim>\<open>std::terminate\<close>).
\<close>

datatype jpc = J_sleep | J_sleeping nat | J_try | J_notify | J_load | J_store size_t | J_exit
  | J_uncaught exn

text \<open>
  What the lambda captures (\<^verbatim>\<open>n\<close> and \<^verbatim>\<open>job\<close>), with two clock readings kept for
  the statements about the delay: when the job was admitted and when it was called.
\<close>

record capture =
  delay :: int
  job :: Job
  admitted :: nat
  invoked :: "nat option"

datatype thread =
    Caller "call list"
  | In_schedule spc Job int "call list"
  | In_wait wpc "call list"
  | JobT jpc capture

text \<open>
  The whole program: the Scheduler, the threads (a thread's id is its index), the time in
  milliseconds, and the calls the error callback has received, each with the calling
  thread and the \<^verbatim>\<open>what()\<close> of the exception passed.
\<close>

record system =
  sched :: Scheduler
  threads :: "thread list"
  clock :: nat
  sink :: "(nat \<times> string) list"

definition init_system :: "Scheduler \<Rightarrow> call list list \<Rightarrow> system" where
  "init_system sch progs = \<lparr>sched = sch, threads = map Caller progs, clock = 0, sink = []\<rparr>"

definition boot :: "size_t \<Rightarrow> Error \<Rightarrow> call list list \<Rightarrow> runtime_error + system" where
  "boot sz err progs =
     (case Scheduler_ctor sz err of Inl e \<Rightarrow> Inl e | Inr sch \<Rightarrow> Inr (init_system sch progs))"

text \<open>
  The try statement of lines 64-75: the texts passed to \<^verbatim>\<open>this->error\<close>, and the
  exception that leaves the statement, if any. The handlers are tried in the source's
  order.
\<close>

fun try_catch :: "Job \<Rightarrow> string list \<times> exn option" where
  "try_catch Returns = ([], None)"
| "try_catch (Throws (StdException w)) = ([w], None)"
| "try_catch (Throws NonStd) = ([''Unknown''], None)"

text \<open>A thread blocked inside \<^verbatim>\<open>condition.wait\<close>, and where it continues when woken.\<close>

fun blocked :: "thread \<Rightarrow> bool" where
  "blocked (In_schedule S_blocked j n k) = True"
| "blocked (In_wait W_blocked k) = True"
| "blocked th = False"

fun woken :: "thread \<Rightarrow> thread option" where
  "woken (In_schedule S_blocked j n k) = Some (In_schedule S_relock j n k)"
| "woken (In_wait W_blocked k) = Some (In_wait W_relock k)"
| "woken th = None"

definition at :: "nat \<Rightarrow> thread \<Rightarrow> system \<Rightarrow> system" where
  "at t th s = s\<lparr>threads := (threads s)[t := th]\<rparr>"

definition lock :: "nat \<Rightarrow> system \<Rightarrow> system" where
  "lock t s = s\<lparr>sched := (sched s)\<lparr>mutex := Some t\<rparr>\<rparr>"

definition unlock :: "system \<Rightarrow> system" where
  "unlock s = s\<lparr>sched := (sched s)\<lparr>mutex := None\<rparr>\<rparr>"

definition store :: "size_t \<Rightarrow> system \<Rightarrow> system" where
  "store v s = s\<lparr>sched := (sched s)\<lparr>countJobs := v\<rparr>\<rparr>"

text \<open>
  One step of thread \<open>t\<close>, which is at \<open>th\<close>; \<open>None\<close> when the thread cannot move.
  Every read and every write of \<^verbatim>\<open>countJobs\<close> is a step of its own.
\<close>

fun go :: "nat \<Rightarrow> thread \<Rightarrow> system \<Rightarrow> system option" where
  "go t (Caller []) s = None"
| "go t (Caller (Schedule j n # k)) s =
     (if mutex (sched s) = None then Some (lock t (at t (In_schedule S_pred j n k) s)) else None)"
| "go t (Caller (Wait # k)) s =
     (if mutex (sched s) = None then Some (lock t (at t (In_wait W_pred k) s)) else None)"
| "go t (In_schedule S_pred j n k) s =
     (if countJobs (sched s) < maxJobsAllowed (sched s)
      then Some (at t (In_schedule S_load j n k) s)
      else Some (unlock (at t (In_schedule S_blocked j n k) s)))"
| "go t (In_schedule S_blocked j n k) s = None"
| "go t (In_schedule S_relock j n k) s =
     (if mutex (sched s) = None then Some (lock t (at t (In_schedule S_pred j n k) s)) else None)"
| "go t (In_schedule S_load j n k) s =
     Some (at t (In_schedule (S_store (countJobs (sched s))) j n k) s)"
| "go t (In_schedule (S_store v) j n k) s =
     Some (store (v + 1) (at t (In_schedule (S_spawn (clock s)) j n k) s))"
| "go t (In_schedule (S_spawn a) j n k) s =
     Some (s\<lparr>threads := (threads s)[t := In_schedule S_unlock j n k]
               @ [JobT J_sleep \<lparr>delay = n, job = j, admitted = a, invoked = None\<rparr>]\<rparr>)"
| "go t (In_schedule S_unlock j n k) s = Some (unlock (at t (Caller k) s))"
| "go t (In_wait W_pred k) s =
     (if countJobs (sched s) = 0
      then Some (at t (In_wait W_unlock k) s)
      else Some (unlock (at t (In_wait W_blocked k) s)))"
| "go t (In_wait W_blocked k) s = None"
| "go t (In_wait W_relock k) s =
     (if mutex (sched s) = None then Some (lock t (at t (In_wait W_pred k) s)) else None)"
| "go t (In_wait W_unlock k) s = Some (unlock (at t (Caller k) s))"
| "go t (JobT J_sleep c) s = Some (at t (JobT (J_sleeping (clock s + nat (delay c))) c) s)"
| "go t (JobT (J_sleeping u) c) s =
     (if u \<le> clock s then Some (at t (JobT J_try c) s) else None)"
| "go t (JobT J_try c) s =
     (case try_catch (job c) of
        (msgs, None) \<Rightarrow>
          Some ((at t (JobT J_notify (c\<lparr>invoked := Some (clock s)\<rparr>)) s)
                  \<lparr>sink := sink s @ map (Pair t) msgs\<rparr>)
      | (msgs, Some e) \<Rightarrow>
          Some ((at t (JobT (J_uncaught e) (c\<lparr>invoked := Some (clock s)\<rparr>)) s)
                  \<lparr>sink := sink s @ map (Pair t) msgs\<rparr>))"
| "go t (JobT J_notify c) s =
     (if list_ex blocked (threads s) then None else Some (at t (JobT J_load c) s))"
| "go t (JobT J_load c) s = Some (at t (JobT (J_store (countJobs (sched s))) c) s)"
| "go t (JobT (J_store v) c) s = Some (store (v - 1) (at t (JobT J_exit c) s))"
| "go t (JobT J_exit c) s = None"
| "go t (JobT (J_uncaught e) c) s = None"

text \<open>
  What can happen next: thread \<open>t\<close> takes a step; thread \<open>t\<close>, at
  \<^verbatim>\<open>notify_one\<close>, wakes the blocked thread \<open>w\<close> (which of the blocked threads is
  woken is the host's choice); a blocked thread wakes by itself, as
  \<^verbatim>\<open>std::condition_variable\<close> allows; a millisecond passes.
\<close>

datatype action = Go nat | Wake nat nat | Spurious nat | Tick

fun step :: "action \<Rightarrow> system \<Rightarrow> system option" where
  "step (Go t) s = (if t < length (threads s) then go t (threads s ! t) s else None)"
| "step (Wake t w) s =
     (if t < length (threads s) \<and> w < length (threads s)
      then (case (threads s ! t, woken (threads s ! w)) of
              (JobT J_notify c, Some th) \<Rightarrow> Some (at t (JobT J_load c) (at w th s))
            | _ \<Rightarrow> None)
      else None)"
| "step (Spurious w) s =
     (if w < length (threads s)
      then (case woken (threads s ! w) of Some th \<Rightarrow> Some (at w th s) | None \<Rightarrow> None)
      else None)"
| "step Tick s = Some (s\<lparr>clock := Suc (clock s)\<rparr>)"

fun exec :: "action list \<Rightarrow> system \<Rightarrow> system option" where
  "exec [] s = Some s"
| "exec (a # as) s = (case step a s of None \<Rightarrow> None | Some s' \<Rightarrow> exec as s')"


text \<open>
  A whole run: construct the Scheduler, start the client threads on it, and let the
  listed actions happen. \<open>Inl\<close> is the constructor's exception; \<open>Inr None\<close> is a list
  of actions that cannot happen in this order.
\<close>

definition run :: "size_t \<Rightarrow> Error \<Rightarrow> call list list \<Rightarrow> action list \<Rightarrow> runtime_error + system option" where
  "run sz err progs as = (case boot sz err progs of Inl e \<Rightarrow> Inl e | Inr s0 \<Rightarrow> Inr (exec as s0))"

subsection \<open>Notions the statements use\<close>

text \<open>The calls of a client thread that have not returned yet, the running one included.\<close>

fun pending :: "thread \<Rightarrow> call list" where
  "pending (Caller k) = k"
| "pending (In_schedule pc j n k) = Schedule j n # k"
| "pending (In_wait pc k) = Wait # k"
| "pending (JobT pc c) = []"

text \<open>A client thread that is not past the predicate of line 48 in a \<^verbatim>\<open>schedule\<close> call.\<close>

fun unadmitted :: "thread \<Rightarrow> bool" where
  "unadmitted (Caller k) = True"
| "unadmitted (In_schedule pc j n k) = (pc = S_pred \<or> pc = S_blocked \<or> pc = S_relock)"
| "unadmitted (In_wait pc k) = True"
| "unadmitted (JobT pc c) = False"

fun is_schedule :: "call \<Rightarrow> bool" where
  "is_schedule (Schedule j n) = True"
| "is_schedule Wait = False"

definition closed_door :: "call list list \<Rightarrow> system \<Rightarrow> bool" where
  "closed_door progs s \<longleftrightarrow>
     maxJobsAllowed (sched s) = 0 \<and> countJobs (sched s) = 0 \<and>
     list_all unadmitted (threads s) \<and>
     map (\<lambda>th. filter is_schedule (pending th)) (threads s) = map (filter is_schedule) progs"

text \<open>A job thread that has left the try statement of lines 64-75.\<close>

fun past_try :: "jpc \<Rightarrow> bool" where
  "past_try J_sleep = False"
| "past_try (J_sleeping u) = False"
| "past_try J_try = False"
| "past_try pc = True"


text \<open>The texts the error callback has received from thread \<open>t\<close>, in order.\<close>

definition reports :: "nat \<Rightarrow> system \<Rightarrow> string list" where
  "reports t s = map snd (filter (\<lambda>e. fst e = t) (sink s))"

fun expected :: "thread \<Rightarrow> string list" where
  "expected (JobT pc c) = (if past_try pc then fst (try_catch (job c)) else [])"
| "expected th = []"

fun uncaught :: "thread \<Rightarrow> bool" where
  "uncaught (JobT (J_uncaught e) c) = True"
| "uncaught th = False"

definition told :: "system \<Rightarrow> nat \<Rightarrow> bool" where
  "told s u \<longleftrightarrow> reports u s = (if u < length (threads s) then expected (threads s ! u) else [])"

definition sink_inv :: "system \<Rightarrow> bool" where
  "sink_inv s \<longleftrightarrow> (\<forall>u. told s u) \<and> list_all (\<lambda>th. \<not> uncaught th) (threads s)"



text \<open>
  A thread with no step of its own: finished, or blocked inside \<^verbatim>\<open>condition.wait\<close>.
\<close>

fun idle :: "thread \<Rightarrow> bool" where
  "idle (Caller []) = True"
| "idle (In_schedule S_blocked j n k) = True"
| "idle (In_wait W_blocked k) = True"
| "idle (JobT J_exit c) = True"
| "idle (JobT (J_uncaught e) c) = True"
| "idle th = False"

fun spurious :: "action \<Rightarrow> bool" where
  "spurious (Spurious w) = True"
| "spurious a = False"

section \<open>Auxiliary facts\<close>

lemmas sys_defs = at_def lock_def unlock_def store_def

lemmas run_defs = run_def boot_def Scheduler_ctor_def init_system_def sys_defs

lemma exec_invariant:
  assumes "exec as s0 = Some s" and "P s0"
    and "\<And>a s s'. P s \<Longrightarrow> step a s = Some s' \<Longrightarrow> P s'"
  shows "P s"
  using assms(1,2)
proof (induction as arbitrary: s0)
  case Nil
  then show ?case by simp
next
  case (Cons a as)
  then show ?case using assms(3) by (auto split: option.splits)
qed

lemma run_exec:
  assumes "run sz err progs as = Inr (Some s)"
  obtains sch where "exec as (init_system sch progs) = Some s"
  using assms by (auto simp: run_def boot_def split: sum.splits)

lemma list_all_update: "list_all P xs \<Longrightarrow> P x \<Longrightarrow> list_all P (xs[i := x])"
  by (metis list_all_length length_list_update nth_list_update_eq nth_list_update_neq)

lemma map_update_same: "i < length xs \<Longrightarrow> f x = f (xs ! i) \<Longrightarrow> map f (xs[i := x]) = map f xs"
  by (simp add: map_update list_update_same_conv)

text \<open>No exception leaves the try statement: the last handler catches everything.\<close>

lemma go_try:
  "go t (JobT J_try c) s =
     Some ((at t (JobT J_notify (c\<lparr>invoked := Some (clock s)\<rparr>)) s)
             \<lparr>sink := sink s @ map (Pair t) (fst (try_catch (job c)))\<rparr>)"
  by (cases "job c" rule: try_catch.cases) simp_all

lemma step_Wake:
  assumes "step (Wake t w) s = Some s'"
  obtains c th where "t < length (threads s)" "w < length (threads s)"
    "threads s ! t = JobT J_notify c" "woken (threads s ! w) = Some th"
    "s' = at t (JobT J_load c) (at w th s)"
  using assms by (auto split: if_splits thread.splits jpc.splits option.splits)

subsection \<open>With capacity 0 nobody is admitted\<close>

lemma woken_unadmitted: "woken th = Some th' \<Longrightarrow> unadmitted th' \<and> pending th' = pending th"
  by (cases th rule: woken.cases) auto

lemma go_closed_door:
  assumes "go t th s = Some s'" "threads s ! t = th" "t < length (threads s)" "closed_door progs s"
  shows "closed_door progs s'"
proof -
  have "unadmitted th"
    using assms by (auto simp: closed_door_def list_all_length)
  with assms show ?thesis
    by (induction t th s rule: go.induct)
       (auto simp: closed_door_def sys_defs list_all_update map_update_same split: if_splits)
qed

lemma step_closed_door:
  assumes "closed_door progs s" "step a s = Some s'"
  shows "closed_door progs s'"
proof (cases a)
  case (Go t)
  then show ?thesis using assms go_closed_door by (auto split: if_splits)
next
  case (Wake t w)
  with assms(2) have "step (Wake t w) s = Some s'"
    by simp
  then obtain c th where "t < length (threads s)" "w < length (threads s)"
      "threads s ! t = JobT J_notify c" "woken (threads s ! w) = Some th"
      "s' = at t (JobT J_load c) (at w th s)"
    by (rule step_Wake)
  with assms(1) show ?thesis
    by (auto simp: closed_door_def list_all_length)
next
  case (Spurious w)
  then show ?thesis using assms
    by (auto simp: closed_door_def sys_defs list_all_update map_update_same
        dest!: woken_unadmitted split: if_splits option.splits)
next
  case Tick
  then show ?thesis using assms by (auto simp: closed_door_def)
qed

subsection \<open>What the error callback has been told\<close>

lemma woken_expected:
  "woken th = Some th' \<Longrightarrow> expected th' = [] \<and> expected th = [] \<and> \<not> uncaught th'"
  by (cases th rule: woken.cases) auto

lemma go_told:
  assumes "go t th s = Some s'" "threads s ! t = th" "t < length (threads s)"
    and "told s u" and "told s t" and "told s (length (threads s))"
  shows "told s' u"
  using assms
  by (induction t th s rule: go.induct)
     (auto simp del: go.simps(17)
        simp: go_try told_def reports_def sys_defs nth_list_update nth_append comp_def
        split: if_splits)

lemma go_uncaught:
  assumes "go t th s = Some s'" "threads s ! t = th" "t < length (threads s)"
    and "list_all (\<lambda>th. \<not> uncaught th) (threads s)"
  shows "list_all (\<lambda>th. \<not> uncaught th) (threads s')"
  using assms
  by (induction t th s rule: go.induct)
     (auto simp del: go.simps(17) simp: go_try sys_defs list_all_update split: if_splits)

lemma step_sink_inv:
  assumes "sink_inv s" "step a s = Some s'"
  shows "sink_inv s'"
proof (cases a)
  case (Go t)
  then show ?thesis using assms go_told go_uncaught
    by (auto simp: sink_inv_def split: if_splits)
next
  case (Wake t w)
  have "told s' u" for u
    using assms Wake
    by (auto simp: sink_inv_def told_def reports_def sys_defs nth_list_update
        dest!: woken_expected split: if_splits thread.splits jpc.splits option.splits)
  moreover have "list_all (\<lambda>th. \<not> uncaught th) (threads s')"
    using assms Wake
    by (auto simp: sink_inv_def sys_defs list_all_update
        dest!: woken_expected split: if_splits thread.splits jpc.splits option.splits)
  ultimately show ?thesis by (simp add: sink_inv_def)
next
  case (Spurious w)
  have "told s' u" for u
    using assms Spurious
    by (auto simp: sink_inv_def told_def reports_def sys_defs nth_list_update
        dest!: woken_expected split: if_splits option.splits)
  moreover have "list_all (\<lambda>th. \<not> uncaught th) (threads s')"
    using assms Spurious
    by (auto simp: sink_inv_def sys_defs list_all_update
        dest!: woken_expected split: if_splits option.splits)
  ultimately show ?thesis by (simp add: sink_inv_def)
next
  case Tick
  with assms have "told s' = told s" "threads s' = threads s"
    by (auto simp: told_def reports_def)
  with assms show ?thesis by (simp add: sink_inv_def)
qed

lemma run_sink_inv:
  assumes "run sz err progs as = Inr (Some s)"
  shows "sink_inv s"
proof -
  from assms obtain sch where e: "exec as (init_system sch progs) = Some s"
    by (rule run_exec)
  have "sink_inv (init_system sch progs)"
    by (simp add: sink_inv_def told_def reports_def init_system_def list_all_length)
  with e show ?thesis
    by (rule exec_invariant) (rule step_sink_inv)
qed

lemma reports_nonempty: "reports u s \<noteq> [] \<longleftrightarrow> (\<exists>m. (u, m) \<in> set (sink s))"
  by (force simp: reports_def filter_empty_conv)

lemma expected_nonempty:
  "expected th \<noteq> [] \<longleftrightarrow> (\<exists>pc c e. th = JobT pc c \<and> past_try pc \<and> job c = Throws e)"
  by (cases th; cases "job (case th of JobT pc c \<Rightarrow> c)" rule: try_catch.cases) auto

subsection \<open>The clock readings of a job thread\<close>







subsection \<open>A job thread is never taken away\<close>





subsection \<open>When every thread is idle\<close>

text \<open>
  Once every thread is finished or blocked in \<^verbatim>\<open>condition.wait\<close>, no thread has a step
  and nobody is left to call \<^verbatim>\<open>notify_one\<close>: time passes and nothing else changes,
  unless the host wakes a blocked thread spuriously, which it need not do.
\<close>

lemma idle_go: "idle th \<Longrightarrow> go t th s = None"
  by (cases th rule: idle.cases) simp_all

lemma idle_step:
  assumes "list_all idle (threads s)" "\<not> spurious a" "step a s = Some s'"
  shows "threads s' = threads s \<and> sched s' = sched s \<and> sink s' = sink s"
proof (cases a)
  case (Go t)
  with assms show ?thesis
    by (auto simp: list_all_length idle_go split: if_splits)
next
  case (Wake t w)
  with assms(3) have "step (Wake t w) s = Some s'"
    by simp
  then obtain c th where "t < length (threads s)" "w < length (threads s)"
      "threads s ! t = JobT J_notify c" "woken (threads s ! w) = Some th"
      "s' = at t (JobT J_load c) (at w th s)"
    by (rule step_Wake)
  with assms(1) show ?thesis
    by (auto simp: list_all_length)
next
  case (Spurious w)
  with assms show ?thesis by simp
next
  case Tick
  with assms show ?thesis by auto
qed

lemma idle_forever:
  assumes "list_all idle (threads s)" "list_all (\<lambda>a. \<not> spurious a) as" "exec as s = Some s'"
  shows "threads s' = threads s \<and> sched s' = sched s \<and> sink s' = sink s"
  using assms
proof (induction as arbitrary: s)
  case Nil
  then show ?case by simp
next
  case (Cons a as)
  from Cons.prems obtain s1 where s1: "step a s = Some s1" "exec as s1 = Some s'"
    by (auto split: option.splits)
  from Cons.prems s1(1) have eq: "threads s1 = threads s \<and> sched s1 = sched s \<and> sink s1 = sink s"
    using idle_step [of s a s1] by simp
  with Cons.prems have "list_all idle (threads s1)" by simp
  from Cons.IH [OF this _ s1(2)] Cons.prems(2) eq show ?case by simp
qed

subsection \<open>What schedule and wait do once their predicate holds\<close>

text \<open>
  After the predicate of line 48 has held, \<^verbatim>\<open>schedule\<close> needs four steps of its own,
  none of which can be refused: it increments the counter, creates the job's thread,
  releases the mutex and returns. It waits neither for the delay nor for the job.
\<close>

lemma schedule_returns_after_admission:
  assumes "t < length (threads s)" "threads s ! t = In_schedule S_load j n k"
  shows "exec [Go t, Go t, Go t, Go t] s =
           Some (s\<lparr>sched := (sched s)\<lparr>countJobs := countJobs (sched s) + 1, mutex := None\<rparr>,
                   threads := (threads s)[t := Caller k]
                      @ [JobT J_sleep \<lparr>delay = n, job = j, admitted = clock s, invoked = None\<rparr>]\<rparr>)"
  using assms by (simp add: sys_defs list_update_append nth_append)

text \<open>
  \<^verbatim>\<open>wait\<close> leaves \<^verbatim>\<open>condition.wait\<close> only by the step that reads the counter as 0;
  called with the counter at 0 and the mutex free, it returns in three steps of its own.
\<close>

lemma go_other:
  assumes "go u th s = Some s'" "threads s ! u = th" "u < length (threads s)"
    and "t < length (threads s)" "t \<noteq> u"
  shows "threads s' ! t = threads s ! t"
  using assms
  by (induction u th s rule: go.induct)
     (auto simp del: go.simps(17) simp: go_try sys_defs nth_append split: if_splits)

lemma wait_returns_only_at_zero:
  assumes "step a s = Some s'" "t < length (threads s)" "threads s ! t = In_wait pc k"
    and "threads s' ! t = In_wait W_unlock k'" "pc \<noteq> W_unlock"
  shows "a = Go t \<and> pc = W_pred \<and> countJobs (sched s) = 0 \<and> countJobs (sched s') = 0"
proof (cases a)
  case (Go u)
  show ?thesis
  proof (cases "u = t")
    case True
    with Go assms show ?thesis
      by (cases pc) (auto simp: sys_defs split: if_splits)
  next
    case False
    with Go assms(1) have "u < length (threads s)" "go u (threads s ! u) s = Some s'"
      by (auto split: if_splits)
    with False assms(2) have "threads s' ! t = threads s ! t"
      using go_other [of u "threads s ! u" s s' t] by simp
    with assms(3-5) show ?thesis
      by simp
  qed
next
  case (Wake u w)
  with assms show ?thesis
    by (cases "threads s ! w" rule: woken.cases)
       (auto simp: sys_defs nth_list_update
          split: if_splits thread.splits jpc.splits option.splits)
next
  case (Spurious w)
  with assms show ?thesis
    by (cases "threads s ! w" rule: woken.cases)
       (auto simp: sys_defs nth_list_update split: if_splits option.splits)
next
  case Tick
  with assms show ?thesis by auto
qed

lemma wait_at_zero_returns:
  assumes "t < length (threads s)" "threads s ! t = Caller (Wait # k)"
    and "mutex (sched s) = None" "countJobs (sched s) = 0"
  shows "exec [Go t, Go t, Go t] s =
           Some (s\<lparr>sched := (sched s)\<lparr>mutex := None\<rparr>, threads := (threads s)[t := Caller k]\<rparr>)"
  using assms by (simp add: sys_defs)

subsection \<open>From the increment to the job's thread\<close>






section \<open>The claims\<close>

text \<open>
  C1 (the counter stays between 0 and the capacity, and no more than capacity jobs are
  in flight). The increment of line 49 is guarded by the predicate of line 48, but the
  decrement of line 78 runs without the mutex, so its read and its write can enclose a
  whole \<^verbatim>\<open>schedule\<close> call of another thread, whose increment is then lost. Capacity 2,
  one client thread submitting four jobs that return at once: the first job reads the
  counter as 1, the client admits the second job (counter 2), the first job writes 0.
  The client then admits the third and the fourth job: three jobs are admitted and
  none of them has run yet. When the three have finished, the counter has gone
  2, 1, 0 and then wrapped to \<open>2^64 - 1\<close>, far above the capacity.
\<close>

theorem counter_leaves_range:
  "run 2 (Callback 0) [[Schedule Returns 0, Schedule Returns 0, Schedule Returns 0, Schedule Returns 0]]
     [Go 0, Go 0, Go 0, Go 0, Go 0, Go 0,
      Go 1, Go 1, Go 1, Go 1, Go 1,
      Go 0, Go 0, Go 0, Go 0, Go 0, Go 0,
      Go 1,
      Go 0, Go 0, Go 0, Go 0, Go 0, Go 0,
      Go 0, Go 0, Go 0, Go 0, Go 0, Go 0,
      Go 2, Go 2, Go 3, Go 3, Go 4, Go 4]
   = Inr (Some \<lparr>sched = \<lparr>maxJobsAllowed = 2, error = Callback 0, countJobs = 2, mutex = None\<rparr>,
                 threads = [Caller [],
                            JobT J_exit \<lparr>delay = 0, job = Returns, admitted = 0, invoked = Some 0\<rparr>,
                            JobT J_try \<lparr>delay = 0, job = Returns, admitted = 0, invoked = None\<rparr>,
                            JobT J_try \<lparr>delay = 0, job = Returns, admitted = 0, invoked = None\<rparr>,
                            JobT J_try \<lparr>delay = 0, job = Returns, admitted = 0, invoked = None\<rparr>],
                 clock = 0, sink = []\<rparr>)
   \<and> run 2 (Callback 0) [[Schedule Returns 0, Schedule Returns 0, Schedule Returns 0, Schedule Returns 0]]
     [Go 0, Go 0, Go 0, Go 0, Go 0, Go 0,
      Go 1, Go 1, Go 1, Go 1, Go 1,
      Go 0, Go 0, Go 0, Go 0, Go 0, Go 0,
      Go 1,
      Go 0, Go 0, Go 0, Go 0, Go 0, Go 0,
      Go 0, Go 0, Go 0, Go 0, Go 0, Go 0,
      Go 2, Go 2, Go 3, Go 3, Go 4, Go 4,
      Go 2, Go 2, Go 2, Go 2, Go 3, Go 3, Go 3, Go 3, Go 4, Go 4, Go 4, Go 4]
   = Inr (Some \<lparr>sched = \<lparr>maxJobsAllowed = 2, error = Callback 0,
                          countJobs = 18446744073709551615, mutex = None\<rparr>,
                 threads = [Caller [],
                            JobT J_exit \<lparr>delay = 0, job = Returns, admitted = 0, invoked = Some 0\<rparr>,
                            JobT J_exit \<lparr>delay = 0, job = Returns, admitted = 0, invoked = Some 0\<rparr>,
                            JobT J_exit \<lparr>delay = 0, job = Returns, admitted = 0, invoked = Some 0\<rparr>,
                            JobT J_exit \<lparr>delay = 0, job = Returns, admitted = 0, invoked = Some 0\<rparr>],
                 clock = 0, sink = []\<rparr>)"
  by (simp add: run_defs)

text \<open>
  C2 (the counter changes only while the mutex is held; a finished job decrements under
  the mutex and then notifies). The job's thread never takes the mutex, and it calls
  \<^verbatim>\<open>notify_one\<close> (line 77) before it decrements (line 78). Capacity 1, one client
  thread: after the first run below the client holds the mutex inside \<^verbatim>\<open>wait\<close> and
  the job's thread, which has notified already, is about to write the counter; one more
  step of the job's thread changes the counter from 1 to 0 while the client still owns
  the mutex.
\<close>

theorem decrement_without_mutex:
  "run 1 (Callback 0) [[Schedule Returns 0, Wait]]
     [Go 0, Go 0, Go 0, Go 0, Go 0, Go 0, Go 1, Go 1, Go 1, Go 1, Go 1, Go 0]
   = Inr (Some \<lparr>sched = \<lparr>maxJobsAllowed = 1, error = Callback 0, countJobs = 1, mutex = Some 0\<rparr>,
                 threads = [In_wait W_pred [],
                            JobT (J_store 1)
                              \<lparr>delay = 0, job = Returns, admitted = 0, invoked = Some 0\<rparr>],
                 clock = 0, sink = []\<rparr>)
   \<and> run 1 (Callback 0) [[Schedule Returns 0, Wait]]
     [Go 0, Go 0, Go 0, Go 0, Go 0, Go 0, Go 1, Go 1, Go 1, Go 1, Go 1, Go 0, Go 1]
   = Inr (Some \<lparr>sched = \<lparr>maxJobsAllowed = 1, error = Callback 0, countJobs = 0, mutex = Some 0\<rparr>,
                 threads = [In_wait W_pred [],
                            JobT J_exit \<lparr>delay = 0, job = Returns, admitted = 0, invoked = Some 0\<rparr>],
                 clock = 0, sink = []\<rparr>)"
  by (simp add: run_defs)

text \<open>
  C3 (every failure of a job is caught, reported to the error callback exactly once with
  a non-empty description, and reaches neither \<^verbatim>\<open>schedule\<close> nor \<^verbatim>\<open>wait\<close>). The
  first handler passes the caught \<^verbatim>\<open>std::exception\<close> on as it is, so its text is the
  job's: a job that does \<^verbatim>\<open>throw std::runtime_error("")\<close> is reported with the empty
  text.
\<close>

theorem empty_description_reported:
  "run 1 (Callback 0) [[Schedule (Throws (StdException '''')) 0]]
     [Go 0, Go 0, Go 0, Go 0, Go 0, Go 0, Go 1, Go 1, Go 1]
   = Inr (Some \<lparr>sched = \<lparr>maxJobsAllowed = 1, error = Callback 0, countJobs = 1, mutex = None\<rparr>,
                 threads = [Caller [],
                            JobT J_notify \<lparr>delay = 0, job = Throws (StdException ''''),
                                           admitted = 0, invoked = Some 0\<rparr>],
                 clock = 0, sink = [(1, '''')]\<rparr>)"
  by (simp add: run_defs)

text \<open>
  C3, as amended. In every run, a job thread whose job throws has, once it is past the
  try statement, made exactly one call of the error callback: with the text of the thrown
  \<^verbatim>\<open>std::exception\<close>, whatever it is, or with \<^verbatim>\<open>Unknown\<close> for anything else. Before
  the try statement it has made none. No exception leaves any job thread, so none
  reaches a caller of \<^verbatim>\<open>schedule\<close> or \<^verbatim>\<open>wait\<close>.
\<close>

theorem failure_reported_once:
  assumes "run sz err progs as = Inr (Some s)"
    and "t < length (threads s)" "threads s ! t = JobT pc c" "job c = Throws e"
  shows "reports t s =
           (if past_try pc then [case e of StdException w \<Rightarrow> w | NonStd \<Rightarrow> ''Unknown''] else [])
       \<and> list_all (\<lambda>th. \<not> uncaught th) (threads s)"
proof -
  from assms(1) have inv: "sink_inv s"
    by (rule run_sink_inv)
  then have "told s t"
    by (simp add: sink_inv_def)
  with assms(2-4) have "reports t s =
      (if past_try pc then [case e of StdException w \<Rightarrow> w | NonStd \<Rightarrow> ''Unknown''] else [])"
    by (cases e) (simp_all add: told_def)
  with inv show ?thesis
    by (simp add: sink_inv_def)
qed

theorem failure_reported_once_witness:
  "run 2 (Callback 0) [[Schedule (Throws (StdException ''err'')) 1, Schedule (Throws NonStd) 0]]
     [Go 0, Go 0, Go 0, Go 0, Go 0, Go 0, Go 0, Go 0, Go 0, Go 0, Go 0, Go 0,
      Go 2, Go 2, Go 2, Go 1, Tick, Go 1, Go 1]
   = Inr (Some \<lparr>sched = \<lparr>maxJobsAllowed = 2, error = Callback 0, countJobs = 2, mutex = None\<rparr>,
                 threads = [Caller [],
                            JobT J_notify \<lparr>delay = 1, job = Throws (StdException ''err''),
                                           admitted = 0, invoked = Some 1\<rparr>,
                            JobT J_notify \<lparr>delay = 0, job = Throws NonStd,
                                           admitted = 0, invoked = Some 0\<rparr>],
                 clock = 1, sink = [(2, ''Unknown''), (1, ''err'')]\<rparr>)
   \<and> reports 1 \<lparr>sched = \<lparr>maxJobsAllowed = 2, error = Callback 0, countJobs = 2, mutex = None\<rparr>,
                 threads = [Caller [],
                            JobT J_notify \<lparr>delay = 1, job = Throws (StdException ''err''),
                                           admitted = 0, invoked = Some 1\<rparr>,
                            JobT J_notify \<lparr>delay = 0, job = Throws NonStd,
                                           admitted = 0, invoked = Some 0\<rparr>],
                 clock = 1, sink = [(2, ''Unknown''), (1, ''err'')]\<rparr> = [''err'']"
proof -
  let ?s = "\<lparr>sched = \<lparr>maxJobsAllowed = 2, error = Callback 0, countJobs = 2, mutex = None\<rparr>,
                 threads = [Caller [],
                            JobT J_notify \<lparr>delay = 1, job = Throws (StdException ''err''),
                                           admitted = 0, invoked = Some 1\<rparr>,
                            JobT J_notify \<lparr>delay = 0, job = Throws NonStd,
                                           admitted = 0, invoked = Some 0\<rparr>],
                 clock = 1, sink = [(2, ''Unknown''), (1, ''err'')]\<rparr>"
  have r: "run 2 (Callback 0) [[Schedule (Throws (StdException ''err'')) 1, Schedule (Throws NonStd) 0]]
     [Go 0, Go 0, Go 0, Go 0, Go 0, Go 0, Go 0, Go 0, Go 0, Go 0, Go 0, Go 0,
      Go 2, Go 2, Go 2, Go 1, Tick, Go 1, Go 1] = Inr (Some ?s)"
    by (simp add: run_defs)
  have "1 < length (threads ?s)"
    and "threads ?s ! 1 = JobT J_notify \<lparr>delay = 1, job = Throws (StdException ''err''),
                                           admitted = 0, invoked = Some 1\<rparr>"
    and "job \<lparr>delay = 1, job = Throws (StdException ''err''), admitted = 0, invoked = Some 1\<rparr>
           = Throws (StdException ''err'')"
    by simp_all
  from failure_reported_once [OF r this] r show ?thesis
    by simp
qed

text \<open>
  C4 (\<^verbatim>\<open>wait\<close> blocks until the counter is 0). \<^verbatim>\<open>wait\<close> can stay blocked for good
  with the counter at 0: the job's thread calls \<^verbatim>\<open>notify_one\<close> (line 77) before it
  decrements (line 78) and holds no mutex while doing either, and nothing notifies after
  the decrement. Capacity 1, one client thread that submits one job and waits. First run:
  the client blocks in \<^verbatim>\<open>wait\<close>; the job finishes and notifies; the client wakes,
  takes the mutex, still reads the counter as 1 and blocks again; the job decrements and
  ends. Second run: the job notifies while nobody is blocked yet; the client reads the
  counter as 1 and blocks; the job decrements and ends. Either way the counter is 0, the
  client is blocked in \<^verbatim>\<open>wait\<close> and every thread is idle; by \<open>idle_forever\<close> only a
  spurious wakeup could let \<^verbatim>\<open>wait\<close> return.
\<close>

theorem wait_misses_wakeup:
  "run 1 (Callback 0) [[Schedule Returns 0, Wait]]
     [Go 0, Go 0, Go 0, Go 0, Go 0, Go 0, Go 0, Go 0,
      Go 1, Go 1, Go 1, Wake 1 0, Go 0, Go 0, Go 1, Go 1]
   = Inr (Some \<lparr>sched = \<lparr>maxJobsAllowed = 1, error = Callback 0, countJobs = 0, mutex = None\<rparr>,
                 threads = [In_wait W_blocked [],
                            JobT J_exit \<lparr>delay = 0, job = Returns, admitted = 0, invoked = Some 0\<rparr>],
                 clock = 0, sink = []\<rparr>)
   \<and> run 1 (Callback 0) [[Schedule Returns 0, Wait]]
     [Go 0, Go 0, Go 0, Go 0, Go 0, Go 0, Go 1, Go 1, Go 1, Go 1, Go 0, Go 0, Go 1, Go 1]
   = Inr (Some \<lparr>sched = \<lparr>maxJobsAllowed = 1, error = Callback 0, countJobs = 0, mutex = None\<rparr>,
                 threads = [In_wait W_blocked [],
                            JobT J_exit \<lparr>delay = 0, job = Returns, admitted = 0, invoked = Some 0\<rparr>],
                 clock = 0, sink = []\<rparr>)
   \<and> list_all idle [In_wait W_blocked [],
                     JobT J_exit \<lparr>delay = 0, job = Returns, admitted = 0, invoked = Some 0\<rparr>]"
  by (simp add: run_defs)

text \<open>
  C5. A null error callback makes the constructor throw: no Scheduler object exists, so
  no program runs on one and no job is ever started.
\<close>

theorem null_callback_rejected:
  "Scheduler_ctor sz nullptr = Inl (RuntimeError ''non-null error callback required'')
   \<and> boot sz nullptr progs = Inl (RuntimeError ''non-null error callback required'')
   \<and> run sz nullptr progs as = Inl (RuntimeError ''non-null error callback required'')"
  by (simp add: Scheduler_ctor_def boot_def run_def)

text \<open>
  C6 (\<^verbatim>\<open>schedule\<close> blocks until the counter is below the capacity, then increments and
  returns). By \<open>schedule_returns_after_admission\<close> it does return without waiting for
  the job once it has read the counter as below the capacity; but it can stay blocked
  for good with the counter below the capacity: the job's thread calls
  \<^verbatim>\<open>notify_one\<close> (line 77) before it decrements (line 78), holds no mutex while doing
  either, and nothing notifies after the decrement. Capacity 1, one client thread that
  submits two jobs. First run: the client blocks in its second call; the first job
  finishes and notifies; the client wakes, takes the mutex, still reads the counter as 1
  and blocks again; the first job decrements and ends. Second run: the first job notifies
  while nobody is blocked yet; the client reads the counter as 1 in its second call and
  blocks; the first job decrements and ends. Either way the counter is 0, below the
  capacity 1, the second call is blocked, its job was never started, and every thread is
  idle.
\<close>

theorem schedule_misses_wakeup:
  "run 1 (Callback 0) [[Schedule Returns 0, Schedule Returns 0]]
     [Go 0, Go 0, Go 0, Go 0, Go 0, Go 0, Go 0, Go 0,
      Go 1, Go 1, Go 1, Wake 1 0, Go 0, Go 0, Go 1, Go 1]
   = Inr (Some \<lparr>sched = \<lparr>maxJobsAllowed = 1, error = Callback 0, countJobs = 0, mutex = None\<rparr>,
                 threads = [In_schedule S_blocked Returns 0 [],
                            JobT J_exit \<lparr>delay = 0, job = Returns, admitted = 0, invoked = Some 0\<rparr>],
                 clock = 0, sink = []\<rparr>)
   \<and> run 1 (Callback 0) [[Schedule Returns 0, Schedule Returns 0]]
     [Go 0, Go 0, Go 0, Go 0, Go 0, Go 0, Go 1, Go 1, Go 1, Go 1, Go 0, Go 0, Go 1, Go 1]
   = Inr (Some \<lparr>sched = \<lparr>maxJobsAllowed = 1, error = Callback 0, countJobs = 0, mutex = None\<rparr>,
                 threads = [In_schedule S_blocked Returns 0 [],
                            JobT J_exit \<lparr>delay = 0, job = Returns, admitted = 0, invoked = Some 0\<rparr>],
                 clock = 0, sink = []\<rparr>)
   \<and> list_all idle [In_schedule S_blocked Returns 0 [],
                     JobT J_exit \<lparr>delay = 0, job = Returns, admitted = 0, invoked = Some 0\<rparr>]"
  by (simp add: run_defs)

text \<open>
  C7. With a callback that is not null the constructor returns a Scheduler whose counter
  is 0; nothing else has happened: the mutex is free, no job thread exists, nothing was
  reported, and the client threads have not yet made a call.
\<close>

theorem construction_starts_at_zero:
  "Scheduler_ctor sz (Callback p)
     = Inr \<lparr>maxJobsAllowed = sz, error = Callback p, countJobs = 0, mutex = None\<rparr>
   \<and> boot sz (Callback p) progs
     = Inr \<lparr>sched = \<lparr>maxJobsAllowed = sz, error = Callback p, countJobs = 0, mutex = None\<rparr>,
            threads = map Caller progs, clock = 0, sink = []\<rparr>"
  by (simp add: Scheduler_ctor_def boot_def init_system_def)




text \<open>
  C9. Capacity 0 is accepted by the constructor, and in every run on such a Scheduler
  the counter stays 0, no client thread gets past the predicate of line 48, no job
  thread is created, and every \<^verbatim>\<open>schedule\<close> call of every client thread is still
  pending: none has returned.
\<close>

theorem zero_capacity_never_admits:
  assumes "run 0 (Callback p) progs as = Inr (Some s)"
  shows "boot 0 (Callback p) progs
           = Inr (init_system \<lparr>maxJobsAllowed = 0, error = Callback p, countJobs = 0, mutex = None\<rparr> progs)
       \<and> countJobs (sched s) = 0
       \<and> list_all unadmitted (threads s)
       \<and> map (\<lambda>th. filter is_schedule (pending th)) (threads s) = map (filter is_schedule) progs"
proof -
  let ?s0 = "init_system \<lparr>maxJobsAllowed = 0, error = Callback p, countJobs = 0, mutex = None\<rparr> progs"
  from assms have e: "exec as ?s0 = Some s"
    by (simp add: run_def boot_def Scheduler_ctor_def)
  have "closed_door progs ?s0"
    by (simp add: closed_door_def init_system_def list_all_length)
  with e have "closed_door progs s"
    by (rule exec_invariant) (rule step_closed_door)
  then show ?thesis
    by (simp add: closed_door_def boot_def Scheduler_ctor_def)
qed

theorem zero_capacity_never_admits_witness:
  "run 0 (Callback 7) [[Schedule Returns 0, Wait]] [Go 0, Go 0, Spurious 0, Go 0, Go 0, Tick]
   = Inr (Some \<lparr>sched = \<lparr>maxJobsAllowed = 0, error = Callback 7, countJobs = 0, mutex = None\<rparr>,
                 threads = [In_schedule S_blocked Returns 0 [Wait]], clock = 1, sink = []\<rparr>)
   \<and> list_all unadmitted [In_schedule S_blocked Returns 0 [Wait]]
   \<and> map (\<lambda>th. filter is_schedule (pending th)) [In_schedule S_blocked Returns 0 [Wait]]
       = map (filter is_schedule) [[Schedule Returns 0, Wait]]"
proof -
  have r: "run 0 (Callback 7) [[Schedule Returns 0, Wait]] [Go 0, Go 0, Spurious 0, Go 0, Go 0, Tick]
   = Inr (Some \<lparr>sched = \<lparr>maxJobsAllowed = 0, error = Callback 7, countJobs = 0, mutex = None\<rparr>,
                 threads = [In_schedule S_blocked Returns 0 [Wait]], clock = 1, sink = []\<rparr>)"
    by (simp add: run_defs)
  from zero_capacity_never_admits [OF r] r show ?thesis
    by simp
qed

text \<open>
  C10. In every run, every call the error callback has received came from a job thread
  that is past its try statement and whose job threw; and a job thread has called the
  callback if and only if it is past its try statement and its job did not return
  normally. So a job that returns is never reported.
\<close>

theorem callback_only_on_failure:
  assumes "run sz err progs as = Inr (Some s)"
  shows "(\<forall>u m. (u, m) \<in> set (sink s) \<longrightarrow>
            u < length (threads s) \<and>
            (\<exists>pc c e. threads s ! u = JobT pc c \<and> past_try pc \<and> job c = Throws e))
       \<and> (\<forall>t pc c. t < length (threads s) \<and> threads s ! t = JobT pc c \<longrightarrow>
            (reports t s \<noteq> [] \<longleftrightarrow> past_try pc \<and> job c \<noteq> Returns))"
proof -
  from assms have inv: "\<And>u. told s u"
    using run_sink_inv by (auto simp: sink_inv_def)
  have a: "u < length (threads s) \<and>
           (\<exists>pc c e. threads s ! u = JobT pc c \<and> past_try pc \<and> job c = Throws e)"
    if "(u, m) \<in> set (sink s)" for u m
  proof -
    from that have ne: "reports u s \<noteq> []"
      by (auto simp: reports_nonempty)
    with inv [of u] have lt: "u < length (threads s)"
      by (auto simp: told_def split: if_splits)
    with inv [of u] ne have "expected (threads s ! u) \<noteq> []"
      by (simp add: told_def)
    with lt show ?thesis
      by (simp add: expected_nonempty)
  qed
  have b: "reports t s \<noteq> [] \<longleftrightarrow> past_try pc \<and> job c \<noteq> Returns"
    if "t < length (threads s)" "threads s ! t = JobT pc c" for t pc c
  proof -
    from that inv [of t] have "reports t s = expected (JobT pc c)"
      by (simp add: told_def)
    then show ?thesis
      by (cases "job c" rule: try_catch.cases) auto
  qed
  from a b show ?thesis by blast
qed

theorem callback_only_on_failure_witness:
  "run 2 (Callback 0) [[Schedule Returns 0, Schedule (Throws NonStd) 0, Wait]]
     [Go 0, Go 0, Go 0, Go 0, Go 0, Go 0, Go 0, Go 0, Go 0, Go 0, Go 0, Go 0,
      Go 1, Go 1, Go 1, Go 1, Go 1, Go 1, Go 2, Go 2, Go 2, Go 2, Go 2, Go 2, Go 0, Go 0, Go 0]
   = Inr (Some \<lparr>sched = \<lparr>maxJobsAllowed = 2, error = Callback 0, countJobs = 0, mutex = None\<rparr>,
                 threads = [Caller [],
                            JobT J_exit \<lparr>delay = 0, job = Returns, admitted = 0, invoked = Some 0\<rparr>,
                            JobT J_exit \<lparr>delay = 0, job = Throws NonStd, admitted = 0, invoked = Some 0\<rparr>],
                 clock = 0, sink = [(2, ''Unknown'')]\<rparr>)
   \<and> reports 1 \<lparr>sched = \<lparr>maxJobsAllowed = 2, error = Callback 0, countJobs = 0, mutex = None\<rparr>,
                 threads = [Caller [],
                            JobT J_exit \<lparr>delay = 0, job = Returns, admitted = 0, invoked = Some 0\<rparr>,
                            JobT J_exit \<lparr>delay = 0, job = Throws NonStd, admitted = 0, invoked = Some 0\<rparr>],
                 clock = 0, sink = [(2, ''Unknown'')]\<rparr> = []
   \<and> reports 2 \<lparr>sched = \<lparr>maxJobsAllowed = 2, error = Callback 0, countJobs = 0, mutex = None\<rparr>,
                 threads = [Caller [],
                            JobT J_exit \<lparr>delay = 0, job = Returns, admitted = 0, invoked = Some 0\<rparr>,
                            JobT J_exit \<lparr>delay = 0, job = Throws NonStd, admitted = 0, invoked = Some 0\<rparr>],
                 clock = 0, sink = [(2, ''Unknown'')]\<rparr> \<noteq> []"
proof -
  let ?s = "\<lparr>sched = \<lparr>maxJobsAllowed = 2, error = Callback 0, countJobs = 0, mutex = None\<rparr>,
                 threads = [Caller [],
                            JobT J_exit \<lparr>delay = 0, job = Returns, admitted = 0, invoked = Some 0\<rparr>,
                            JobT J_exit \<lparr>delay = 0, job = Throws NonStd, admitted = 0, invoked = Some 0\<rparr>],
                 clock = 0, sink = [(2, ''Unknown'')]\<rparr>"
  have r: "run 2 (Callback 0) [[Schedule Returns 0, Schedule (Throws NonStd) 0, Wait]]
     [Go 0, Go 0, Go 0, Go 0, Go 0, Go 0, Go 0, Go 0, Go 0, Go 0, Go 0, Go 0,
      Go 1, Go 1, Go 1, Go 1, Go 1, Go 1, Go 2, Go 2, Go 2, Go 2, Go 2, Go 2, Go 0, Go 0, Go 0]
      = Inr (Some ?s)"
    by (simp add: run_defs)
  from callback_only_on_failure [OF r]
  have "\<And>t pc c. t < length (threads ?s) \<and> threads ?s ! t = JobT pc c \<Longrightarrow>
            (reports t ?s \<noteq> [] \<longleftrightarrow> past_try pc \<and> job c \<noteq> Returns)"
    by blast
  from this [of 1] this [of 2] r show ?thesis
    by simp
qed

end
